theory Spec2Isabelle
  imports Main
begin

section \<open>Data model of \<open>scriptworker/worker.py\<close>\<close>

text \<open>
  The worker is single-threaded asyncio code.  Between two \<open>await\<close>s the statements of a
  coroutine run without interleaving; while a coroutine is suspended at an \<open>await\<close> the
  SIGTERM handler of \<open>main\<close> may run and call \<open>cancel()\<close> on the orchestrator object.
  The model therefore threads one state through the code and, at every \<open>await\<close>, applies
  the \<open>cancel()\<close> calls that arrive there before the awaited result is delivered.  What
  the external collaborators do (return, or raise an exception of some class) and when
  \<open>cancel()\<close> arrives is the input of the model.
\<close>

type_synonym task = nat
type_synonym proc = nat

text \<open>
  The exception classes the handlers of \<open>worker.py\<close> tell apart.
  Modelled from the spec: the classes of \<open>scriptworker.exceptions\<close> are not among the
  sources; a structured worker failure carries its own severity code, and the Chain of
  Trust failure is one of them, so \<open>except ScriptWorkerException\<close> catches both.
\<close>

datatype exn =
    CancelledError
  | ScriptWorkerException int
  | CoTError string int
  | ClientError
  | UnexpectedException

fun exit_code :: "exn \<Rightarrow> int option" where
  "exit_code (ScriptWorkerException c) = Some c"
| "exit_code (CoTError msg c) = Some c"
| "exit_code _ = None"

datatype 'a outcome = Returns 'a | Raises exn

text \<open>The coroutines that \<open>_run_cancellable\<close> wraps into a future.\<close>

datatype coroutine = Claim_work | Sleep int | Verify_chain_of_trust

text \<open>
  An \<open>await\<close> of an external operation: the number of \<open>cancel()\<close> calls that arrive while
  the caller is suspended there, and what the \<open>await\<close> then delivers.
\<close>

record 'a await =
  cancels :: nat
  result :: "'a outcome"

text \<open>
  \<open>run_task\<close> calls back \<open>to_cancellable_process\<close> once it has spawned the subprocess (if it
  gets that far); \<open>cancel()\<close> may arrive before and after that call.
\<close>

record run_scn =
  cancels_before_adopt :: nat
  adopted :: "proc option"
  cancels_after_adopt :: nat
  run_result :: "int outcome"

text \<open>
  One task descriptor of a claim, together with what the collaborators do while it is
  processed.
\<close>

record task_run =
  task_defn :: task
  verify :: "unit await"
  run :: run_scn
  gen_cot :: "unit outcome"
  upload :: "unit await"
  complete :: "unit await"

text \<open>
  One iteration: what \<open>claim_work\<close> delivers (\<open>[]\<close> stands for every falsy answer: \<open>None\<close>,
  a dict without \<open>tasks\<close>, an empty \<open>tasks\<close> list) and what the idle sleep delivers.
\<close>

record scenario =
  claim :: "task_run list await"
  idle :: "unit await"

text \<open>The effects on the outside world, in the order they happen.\<close>

datatype event =
    EnsureFuture coroutine
  | FutureCancel coroutine
  | WorkerShutdownStop proc
  | PrepareToRunTask task
  | ReclaimStart task
  | ReclaimCancel task
  | RunTask task
  | GenerateCot task
  | UploadArtifacts task
  | CompleteTask task int
  | Cleanup

text \<open>The fields of a \<open>RunTasks\<close> object.\<close>

record RunTasks =
  future :: "coroutine option"
  task_process :: "proc option"
  is_cancelled :: bool

text \<open>The two status codes of \<open>scriptworker.constants.STATUSES\<close> the module reads.\<close>

record statuses =
  intermittent_task :: int
  worker_shutdown :: int

record config =
  verify_chain_of_trust :: bool
  poll_interval :: int

text \<open>
  The state: the orchestrator object \<open>self\<close>, the fields of the context the module reads
  or writes (\<open>context.running_tasks\<close> holds the number of the \<open>RunTasks\<close> instance it refers
  to), and the trace of effects.
\<close>

record world =
  self :: RunTasks
  instances :: nat
  running_tasks :: "nat option"
  config :: config
  trace :: "event list"

definition emit :: "event \<Rightarrow> world \<Rightarrow> world" where
  "emit e \<sigma> = \<sigma>\<lparr>trace := trace \<sigma> @ [e]\<rparr>"

text \<open>
  Modelled from the spec: \<open>worst_level\<close> of \<open>scriptworker.task\<close> is not among the sources.
  It returns the more severe of two exit statuses under a total order with success (0) as
  the least status; the order is taken to be the numeric order of the codes.
\<close>

definition worst_level :: "int \<Rightarrow> int \<Rightarrow> int" where
  "worst_level level1 level2 = (if level1 > level2 then level1 else level2)"

section \<open>The cancellation token: methods of \<open>RunTasks\<close>\<close>

definition RunTasks_init :: RunTasks where
  "RunTasks_init = \<lparr>future = None, task_process = None, is_cancelled = False\<rparr>"

text \<open>
  \<open>cancel\<close>: the trace records the call of \<open>future.cancel()\<close> (made whether or not the
  future is still pending) and the call of \<open>task_process.worker_shutdown_stop()\<close>, the
  request to terminate the subprocess.  The method is one step of the model: its only
  \<open>await\<close> is its last statement.
\<close>

definition cancel :: "world \<Rightarrow> world" where
  "cancel \<sigma> =
     (let \<sigma>1 = \<sigma>\<lparr>self := (self \<sigma>)\<lparr>is_cancelled := True\<rparr>\<rparr>;
          \<sigma>2 = (case future (self \<sigma>1) of None \<Rightarrow> \<sigma>1 | Some f \<Rightarrow> emit (FutureCancel f) \<sigma>1)
      in (case task_process (self \<sigma>2) of None \<Rightarrow> \<sigma>2
          | Some p \<Rightarrow> emit (WorkerShutdownStop p) \<sigma>2))"

text \<open>The \<open>cancel()\<close> calls that arrive during one suspension.\<close>

definition arrivals :: "nat \<Rightarrow> world \<Rightarrow> world" where
  "arrivals n \<sigma> = (cancel ^^ n) \<sigma>"

text \<open>\<open>_run_cancellable\<close>: when the awaited future raises, \<open>self.future\<close> is left as it is.\<close>

definition run_cancellable :: "coroutine \<Rightarrow> 'a await \<Rightarrow> world \<Rightarrow> (exn + 'a) \<times> world" where
  "run_cancellable c aw \<sigma> =
     (if is_cancelled (self \<sigma>) then (Inl CancelledError, \<sigma>)
      else
        (let \<sigma>1 = emit (EnsureFuture c) (\<sigma>\<lparr>self := (self \<sigma>)\<lparr>future := Some c\<rparr>\<rparr>);
             \<sigma>2 = arrivals (cancels aw) \<sigma>1
         in (case result aw of
               Raises e \<Rightarrow> (Inl e, \<sigma>2)
             | Returns v \<Rightarrow> (Inr v, \<sigma>2\<lparr>self := (self \<sigma>2)\<lparr>future := None\<rparr>\<rparr>))))"

definition cancellable_verify_chain_of_trust ::
  "statuses \<Rightarrow> unit await \<Rightarrow> world \<Rightarrow> (exn + unit) \<times> world" where
  "cancellable_verify_chain_of_trust STATUSES aw \<sigma> =
     (let exception = CoTError ''Chain of Trust verification was aborted''
                        (worker_shutdown STATUSES)
      in if is_cancelled (self \<sigma>) then (Inl exception, \<sigma>)
         else (case run_cancellable Verify_chain_of_trust aw \<sigma> of
                 (Inl e, \<sigma>') \<Rightarrow>
                   (if e = CancelledError then (Inl exception, \<sigma>') else (Inl e, \<sigma>'))
               | (Inr v, \<sigma>') \<Rightarrow> (Inr v, \<sigma>')))"

definition to_cancellable_process :: "proc \<Rightarrow> world \<Rightarrow> world" where
  "to_cancellable_process p \<sigma> =
     (let \<sigma>1 = \<sigma>\<lparr>self := (self \<sigma>)\<lparr>task_process := Some p\<rparr>\<rparr>
      in if is_cancelled (self \<sigma>1) then emit (WorkerShutdownStop p) \<sigma>1 else \<sigma>1)"

section \<open>The external collaborators, as the orchestrator sees them\<close>

text \<open>An \<open>await\<close> of a collaborator that is not wrapped by \<open>_run_cancellable\<close>.\<close>

definition await_ext :: "event \<Rightarrow> 'a await \<Rightarrow> world \<Rightarrow> (exn + 'a) \<times> world" where
  "await_ext ev aw \<sigma> =
     (let \<sigma>1 = arrivals (cancels aw) (emit ev \<sigma>)
      in (case result aw of Raises e \<Rightarrow> (Inl e, \<sigma>1) | Returns v \<Rightarrow> (Inr v, \<sigma>1)))"

definition run_task :: "task \<Rightarrow> run_scn \<Rightarrow> world \<Rightarrow> (exn + int) \<times> world" where
  "run_task t r \<sigma> =
     (let \<sigma>1 = arrivals (cancels_before_adopt r) (emit (RunTask t) \<sigma>);
          \<sigma>2 = (case adopted r of None \<Rightarrow> \<sigma>1 | Some p \<Rightarrow> to_cancellable_process p \<sigma>1);
          \<sigma>3 = arrivals (cancels_after_adopt r) \<sigma>2
      in (case run_result r of Raises e \<Rightarrow> (Inl e, \<sigma>3) | Returns s \<Rightarrow> (Inr s, \<sigma>3)))"

definition generate_cot :: "task \<Rightarrow> unit outcome \<Rightarrow> world \<Rightarrow> (exn + unit) \<times> world" where
  "generate_cot t r \<sigma> =
     (case r of Raises e \<Rightarrow> (Inl e, emit (GenerateCot t) \<sigma>)
      | Returns v \<Rightarrow> (Inr v, emit (GenerateCot t) \<sigma>))"

section \<open>\<open>do_run_task\<close> and \<open>do_upload\<close>\<close>

text \<open>
  The two \<open>except\<close> clauses of \<open>do_run_task\<close>: a structured failure is folded into the
  status, anything else is raised again.
\<close>

definition run_handler :: "int \<Rightarrow> exn \<Rightarrow> world \<Rightarrow> (exn + int) \<times> world" where
  "run_handler status e \<sigma> =
     (case exit_code e of
        Some c \<Rightarrow> (Inr (worst_level status c), \<sigma>)
      | None \<Rightarrow> (Inl e, \<sigma>))"

definition do_run_task :: "statuses \<Rightarrow> task_run \<Rightarrow> world \<Rightarrow> (exn + int) \<times> world" where
  "do_run_task STATUSES t \<sigma> =
     (let status = 0 in
      (case (if verify_chain_of_trust (config \<sigma>)
             then cancellable_verify_chain_of_trust STATUSES (verify t) \<sigma>
             else (Inr (), \<sigma>)) of
         (Inl e, \<sigma>1) \<Rightarrow> run_handler status e \<sigma>1
       | (Inr _, \<sigma>1) \<Rightarrow>
           (case run_task (task_defn t) (run t) \<sigma>1 of
              (Inl e, \<sigma>2) \<Rightarrow> run_handler status e \<sigma>2
            | (Inr status, \<sigma>2) \<Rightarrow>
                (case generate_cot (task_defn t) (gen_cot t) \<sigma>2 of
                   (Inl e, \<sigma>3) \<Rightarrow> run_handler status e \<sigma>3
                 | (Inr _, \<sigma>3) \<Rightarrow> (Inr status, \<sigma>3)))))"

definition do_upload :: "statuses \<Rightarrow> task_run \<Rightarrow> world \<Rightarrow> (exn + int) \<times> world" where
  "do_upload STATUSES t \<sigma> =
     (let status = 0 in
      (case await_ext (UploadArtifacts (task_defn t)) (upload t) \<sigma> of
         (Inl e, \<sigma>1) \<Rightarrow>
           (case exit_code e of
              Some c \<Rightarrow> (Inr (worst_level status c), \<sigma>1)
            | None \<Rightarrow>
                (if e = ClientError
                 then (Inr (worst_level status (intermittent_task STATUSES)), \<sigma>1)
                 else (Inl e, \<sigma>1)))
       | (Inr _, \<sigma>1) \<Rightarrow> (Inr status, \<sigma>1)))"

section \<open>\<open>RunTasks.invoke\<close> and \<open>run_tasks\<close>\<close>

text \<open>
  The body of the \<open>for\<close> loop of \<open>invoke\<close>, for one task descriptor.
  \<open>prepare_to_run_task\<close>, the creation of the reclaim task, \<open>reclaim_fut.cancel()\<close> and
  \<open>cleanup\<close> are effects that return.  No handler surrounds the body: an exception of a
  stage leaves it at once.
\<close>

definition run_one :: "statuses \<Rightarrow> task_run \<Rightarrow> world \<Rightarrow> (exn + int) \<times> world" where
  "run_one STATUSES t \<sigma> =
     (let \<sigma>1 = emit (PrepareToRunTask (task_defn t)) \<sigma>;
          \<sigma>2 = emit (ReclaimStart (task_defn t)) \<sigma>1
      in (case do_run_task STATUSES t \<sigma>2 of
            (Inl e, \<sigma>3) \<Rightarrow> (Inl e, \<sigma>3)
          | (Inr s, \<sigma>3) \<Rightarrow>
              (case do_upload STATUSES t \<sigma>3 of
                 (Inl e, \<sigma>4) \<Rightarrow> (Inl e, \<sigma>4)
               | (Inr u, \<sigma>4) \<Rightarrow>
                   (let status = worst_level s u
                    in (case await_ext (CompleteTask (task_defn t) status) (complete t) \<sigma>4 of
                          (Inl e, \<sigma>5) \<Rightarrow> (Inl e, \<sigma>5)
                        | (Inr _, \<sigma>5) \<Rightarrow>
                            (Inr status,
                             emit Cleanup (emit (ReclaimCancel (task_defn t)) \<sigma>5)))))))"

text \<open>The loop: \<open>status\<close> is overwritten by every task that runs to its end.\<close>

fun run_loop ::
  "statuses \<Rightarrow> int option \<Rightarrow> task_run list \<Rightarrow> world \<Rightarrow> (exn + int option) \<times> world" where
  "run_loop STATUSES status [] \<sigma> = (Inr status, \<sigma>)"
| "run_loop STATUSES status (t # ts) \<sigma> =
     (case run_one STATUSES t \<sigma> of
        (Inl e, \<sigma>') \<Rightarrow> (Inl e, \<sigma>')
      | (Inr s, \<sigma>') \<Rightarrow> run_loop STATUSES (Some s) ts \<sigma>')"

text \<open>The \<open>except CancelledError: return None\<close> clause around the body of \<open>invoke\<close>.\<close>

definition invoke_handler :: "exn \<Rightarrow> world \<Rightarrow> (exn + int option) \<times> world" where
  "invoke_handler e \<sigma> = (if e = CancelledError then (Inr None, \<sigma>) else (Inl e, \<sigma>))"

definition invoke :: "statuses \<Rightarrow> scenario \<Rightarrow> world \<Rightarrow> (exn + int option) \<times> world" where
  "invoke STATUSES sc \<sigma> =
     (case run_cancellable Claim_work (claim sc) \<sigma> of
        (Inl e, \<sigma>1) \<Rightarrow> invoke_handler e \<sigma>1
      | (Inr tasks, \<sigma>1) \<Rightarrow>
          (if tasks = []
           then (case run_cancellable (Sleep (poll_interval (config \<sigma>1))) (idle sc) \<sigma>1 of
                   (Inl e, \<sigma>2) \<Rightarrow> invoke_handler e \<sigma>2
                 | (Inr _, \<sigma>2) \<Rightarrow> (Inr None, \<sigma>2))
           else (case run_loop STATUSES None tasks \<sigma>1 of
                   (Inl e, \<sigma>2) \<Rightarrow> invoke_handler e \<sigma>2
                 | (Inr status, \<sigma>2) \<Rightarrow> (Inr status, \<sigma>2))))"



section \<open>Observations on traces and scenarios\<close>

text \<open>What one call of \<open>cancel()\<close> on a token with these fields does to the outside.\<close>

definition cancel_events :: "RunTasks \<Rightarrow> event list" where
  "cancel_events r =
     (case future r of None \<Rightarrow> [] | Some f \<Rightarrow> [FutureCancel f]) @
     (case task_process r of None \<Rightarrow> [] | Some p \<Rightarrow> [WorkerShutdownStop p])"

text \<open>
  The lease renewals that are running after a sequence of events, given those running
  before it: a renewal runs from its creation until \<open>cancel()\<close> is called on it.
\<close>

fun renewals :: "event list \<Rightarrow> task list \<Rightarrow> task list" where
  "renewals [] live = live"
| "renewals (ReclaimStart t # es) live = renewals es (t # live)"
| "renewals (ReclaimCancel t # es) live = renewals es (remove1 t live)"
| "renewals (e # es) live = renewals es live"

text \<open>
  The exit paths of a task that the orchestrator handles itself: every stage returns, or
  raises a structured worker failure where \<open>do_run_task\<close> and \<open>do_upload\<close> catch it, or the
  upload raises a transport error, or the verification future is cancelled; the report
  of completion returns.  The \<open>cancel()\<close> calls that arrive are not restricted.
\<close>

definition structured :: "exn \<Rightarrow> bool" where
  "structured e = (exit_code e \<noteq> None)"

definition handled :: "task_run \<Rightarrow> bool" where
  "handled t =
     ((case result (verify t) of Returns _ \<Rightarrow> True
       | Raises e \<Rightarrow> e = CancelledError \<or> structured e) \<and>
      (case run_result (run t) of Returns _ \<Rightarrow> True | Raises e \<Rightarrow> structured e) \<and>
      (case gen_cot t of Returns _ \<Rightarrow> True | Raises e \<Rightarrow> structured e) \<and>
      (case result (upload t) of Returns _ \<Rightarrow> True
       | Raises e \<Rightarrow> e = ClientError \<or> structured e) \<and>
      result (complete t) = Returns ())"

section \<open>Concrete inputs\<close>

definition STATUSES_ex :: statuses where
  "STATUSES_ex = \<lparr>intermittent_task = 7, worker_shutdown = 2\<rparr>"

text \<open>A fresh orchestrator object in a context that asks for verification.\<close>

definition world_ex :: world where
  "world_ex =
     \<lparr>self = RunTasks_init, instances = 0, running_tasks = None,
      config = \<lparr>verify_chain_of_trust = True, poll_interval = 5\<rparr>, trace = []\<rparr>"

text \<open>The same with a subprocess registered on the token.\<close>

definition world_proc :: world where
  "world_proc = world_ex\<lparr>self := RunTasks_init\<lparr>task_process := Some 7\<rparr>\<rparr>"

text \<open>The same with the token already cancelled.\<close>

definition world_cancelled :: world where
  "world_cancelled = world_ex\<lparr>self := RunTasks_init\<lparr>is_cancelled := True\<rparr>\<rparr>"

definition quiet :: "'a \<Rightarrow> 'a await" where
  "quiet v = \<lparr>cancels = 0, result = Returns v\<rparr>"

text \<open>A task on which every stage returns, with exit status 0.\<close>

definition task_ok :: task_run where
  "task_ok =
     \<lparr>task_defn = 1, verify = quiet (),
      run = \<lparr>cancels_before_adopt = 0, adopted = Some 9, cancels_after_adopt = 0,
             run_result = Returns 0\<rparr>,
      gen_cot = Returns (), upload = quiet (), complete = quiet ()\<rparr>"

text \<open>Verification raises a structured worker failure with exit code 3.\<close>

definition task_bad_cot :: task_run where
  "task_bad_cot = task_ok\<lparr>verify := \<lparr>cancels = 0, result = Raises (ScriptWorkerException 3)\<rparr>\<rparr>"

text \<open>\<open>cancel()\<close> arrives during verification and the verification future is cancelled.\<close>

definition task_shutdown :: task_run where
  "task_shutdown = task_ok\<lparr>verify := \<lparr>cancels = 1, result = Raises CancelledError\<rparr>\<rparr>"


text \<open>A second task whose upload raises a transport error.\<close>

definition task_transport :: task_run where
  "task_transport =
     task_ok\<lparr>task_defn := 2, upload := \<lparr>cancels = 0, result = Raises ClientError\<rparr>\<rparr>"


definition claims :: "task_run list \<Rightarrow> scenario" where
  "claims ts = \<lparr>claim = quiet ts, idle = quiet ()\<rparr>"

text \<open>
  \<open>cancel()\<close> arrives while the task script runs, and the await of \<open>run_task\<close> ends
  with \<open>CancelledError\<close>.
\<close>

definition task_run_cancelled :: task_run where
  "task_run_cancelled =
     task_ok\<lparr>run := \<lparr>cancels_before_adopt = 0, adopted = Some 9, cancels_after_adopt = 1,
                      run_result = Raises CancelledError\<rparr>\<rparr>"

section \<open>Auxiliary facts\<close>

lemma emit_fields [simp]:
  "self (emit e \<sigma>) = self \<sigma>"
  "config (emit e \<sigma>) = config \<sigma>"
  "running_tasks (emit e \<sigma>) = running_tasks \<sigma>"
  "instances (emit e \<sigma>) = instances \<sigma>"
  "trace (emit e \<sigma>) = trace \<sigma> @ [e]"
  by (simp_all add: emit_def)

lemma concat_replicate_snoc:
  "concat (replicate n xs) @ xs = xs @ concat (replicate n xs)"
  by (induction n) simp_all

lemma cancel_eq:
  "cancel \<sigma> = \<sigma>\<lparr>self := (self \<sigma>)\<lparr>is_cancelled := True\<rparr>,
                 trace := trace \<sigma> @ cancel_events (self \<sigma>)\<rparr>"
  by (simp add: cancel_def cancel_events_def emit_def Let_def split: option.splits)

lemma cancel_events_flag [simp]:
  "cancel_events (r\<lparr>is_cancelled := b\<rparr>) = cancel_events r"
  by (simp add: cancel_events_def)

lemma arrivals_eq:
  "arrivals n \<sigma> =
     \<sigma>\<lparr>self := (if n = 0 then self \<sigma> else (self \<sigma>)\<lparr>is_cancelled := True\<rparr>),
       trace := trace \<sigma> @ concat (replicate n (cancel_events (self \<sigma>)))\<rparr>"
proof (induction n)
  case 0
  show ?case by (simp add: arrivals_def)
next
  case (Suc n)
  have "arrivals (Suc n) \<sigma> = cancel (arrivals n \<sigma>)"
    by (simp add: arrivals_def)
  also have "\<dots> = \<sigma>\<lparr>self := (self \<sigma>)\<lparr>is_cancelled := True\<rparr>,
       trace := trace \<sigma> @ concat (replicate (Suc n) (cancel_events (self \<sigma>)))\<rparr>"
    by (subst Suc.IH) (simp add: cancel_eq concat_replicate_snoc)
  finally show ?case by simp
qed

lemma arrivals_fields [simp]:
  "config (arrivals n \<sigma>) = config \<sigma>"
  "running_tasks (arrivals n \<sigma>) = running_tasks \<sigma>"
  "instances (arrivals n \<sigma>) = instances \<sigma>"
  "future (self (arrivals n \<sigma>)) = future (self \<sigma>)"
  "task_process (self (arrivals n \<sigma>)) = task_process (self \<sigma>)"
  "is_cancelled (self (arrivals n \<sigma>)) = (is_cancelled (self \<sigma>) \<or> 0 < n)"
  "trace (arrivals n \<sigma>) = trace \<sigma> @ concat (replicate n (cancel_events (self \<sigma>)))"
  by (simp_all add: arrivals_eq)

lemma renewals_append [simp]:
  "renewals (es @ es') live = renewals es' (renewals es live)"
  by (induction es live rule: renewals.induct) simp_all

lemma renewals_cancel_events [simp]: "renewals (cancel_events r) live = live"
  by (simp add: cancel_events_def split: option.splits)

lemma renewals_arrival_events [simp]:
  "renewals (concat (replicate n (cancel_events r))) live = live"
  by (induction n) simp_all

lemma renewals_Cons_arrival_events [simp]:
  "renewals (e # concat (replicate n (cancel_events r))) live = renewals [e] live"
  by (cases e) simp_all

text \<open>
  What the methods of the token and the collaborators leave unchanged: the reference in
  the context, the configuration and the set of running lease renewals.
\<close>

lemma run_cancellable_keeps:
  "run_cancellable c aw \<sigma> = (r, \<sigma>') \<Longrightarrow>
     running_tasks \<sigma>' = running_tasks \<sigma> \<and> config \<sigma>' = config \<sigma> \<and>
     (\<forall>live. renewals (trace \<sigma>') live = renewals (trace \<sigma>) live)"
  by (auto simp: run_cancellable_def Let_def split: if_splits outcome.splits)

lemma cancellable_verify_keeps:
  "cancellable_verify_chain_of_trust ST aw \<sigma> = (r, \<sigma>') \<Longrightarrow>
     running_tasks \<sigma>' = running_tasks \<sigma> \<and> config \<sigma>' = config \<sigma> \<and>
     (\<forall>live. renewals (trace \<sigma>') live = renewals (trace \<sigma>) live)"
  by (auto simp: cancellable_verify_chain_of_trust_def Let_def
      split: if_splits prod.splits sum.splits dest!: run_cancellable_keeps)

lemma to_cancellable_process_fields [simp]:
  "renewals (trace (to_cancellable_process p \<sigma>)) live = renewals (trace \<sigma>) live"
  "running_tasks (to_cancellable_process p \<sigma>) = running_tasks \<sigma>"
  "config (to_cancellable_process p \<sigma>) = config \<sigma>"
  by (simp_all add: to_cancellable_process_def Let_def)

lemma run_task_keeps:
  "run_task k r \<sigma> = (x, \<sigma>') \<Longrightarrow>
     running_tasks \<sigma>' = running_tasks \<sigma> \<and> config \<sigma>' = config \<sigma> \<and>
     (\<forall>live. renewals (trace \<sigma>') live = renewals (trace \<sigma>) live)"
  by (auto simp: run_task_def Let_def split: option.splits outcome.splits)

lemma generate_cot_keeps:
  "generate_cot k r \<sigma> = (x, \<sigma>') \<Longrightarrow>
     running_tasks \<sigma>' = running_tasks \<sigma> \<and> config \<sigma>' = config \<sigma> \<and>
     (\<forall>live. renewals (trace \<sigma>') live = renewals (trace \<sigma>) live)"
  by (auto simp: generate_cot_def split: outcome.splits)

lemma run_handler_keeps: "run_handler s e \<sigma> = (x, \<sigma>') \<Longrightarrow> \<sigma>' = \<sigma>"
  by (auto simp: run_handler_def split: option.splits)

lemma do_run_task_keeps:
  "do_run_task ST t \<sigma> = (x, \<sigma>') \<Longrightarrow>
     running_tasks \<sigma>' = running_tasks \<sigma> \<and> config \<sigma>' = config \<sigma> \<and>
     (\<forall>live. renewals (trace \<sigma>') live = renewals (trace \<sigma>) live)"
  by (auto simp: do_run_task_def Let_def
      split: if_splits prod.splits sum.splits
      dest!: run_handler_keeps cancellable_verify_keeps run_task_keeps generate_cot_keeps)

lemma await_ext_keeps:
  "await_ext ev aw \<sigma> = (x, \<sigma>') \<Longrightarrow>
     running_tasks \<sigma>' = running_tasks \<sigma> \<and> config \<sigma>' = config \<sigma> \<and>
     (\<forall>live. renewals (trace \<sigma>') live = renewals (trace \<sigma> @ [ev]) live)"
  by (auto simp: await_ext_def Let_def split: outcome.splits)

lemma do_upload_keeps:
  "do_upload ST t \<sigma> = (x, \<sigma>') \<Longrightarrow>
     running_tasks \<sigma>' = running_tasks \<sigma> \<and> config \<sigma>' = config \<sigma> \<and>
     (\<forall>live. renewals (trace \<sigma>') live = renewals (trace \<sigma>) live)"
  by (auto simp: do_upload_def Let_def
      split: if_splits prod.splits sum.splits option.splits dest!: await_ext_keeps)


lemma run_one_renewals:
  "run_one ST t \<sigma> = (Inr s, \<sigma>') \<Longrightarrow>
     renewals (trace \<sigma>') live = renewals (trace \<sigma>) live"
  by (auto simp: run_one_def Let_def split: prod.splits sum.splits
      dest!: do_run_task_keeps do_upload_keeps await_ext_keeps)


lemma run_loop_renewals:
  "run_loop ST st ts \<sigma> = (Inr r, \<sigma>') \<Longrightarrow>
     renewals (trace \<sigma>') live = renewals (trace \<sigma>) live"
  by (induction ts arbitrary: st \<sigma>)
     (auto split: prod.splits sum.splits dest!: run_one_renewals)


text \<open>The results of the stages, read off the scenario.\<close>

lemma run_cancellable_fst:
  "fst (run_cancellable c aw \<sigma>) =
     (if is_cancelled (self \<sigma>) then Inl CancelledError
      else (case result aw of Raises e \<Rightarrow> Inl e | Returns v \<Rightarrow> Inr v))"
  by (simp add: run_cancellable_def Let_def split: outcome.splits)

lemma await_ext_eq:
  "await_ext ev aw \<sigma> =
     ((case result aw of Raises e \<Rightarrow> Inl e | Returns v \<Rightarrow> Inr v),
      arrivals (cancels aw) (emit ev \<sigma>))"
  by (simp add: await_ext_def Let_def split: outcome.splits)

lemma do_upload_fst:
  "fst (do_upload ST t \<sigma>) =
     (case result (upload t) of
        Returns _ \<Rightarrow> Inr 0
      | Raises e \<Rightarrow>
          (case exit_code e of
             Some c \<Rightarrow> Inr (worst_level 0 c)
           | None \<Rightarrow> if e = ClientError then Inr (worst_level 0 (intermittent_task ST))
                     else Inl e))"
  by (simp add: do_upload_def await_ext_eq Let_def split: outcome.splits option.splits)

lemma do_upload_snd:
  "snd (do_upload ST t \<sigma>) =
     arrivals (cancels (upload t)) (emit (UploadArtifacts (task_defn t)) \<sigma>)"
  by (simp add: do_upload_def await_ext_eq Let_def split: outcome.splits option.splits)

lemma cancel_events_are_cancellations:
  "e \<in> set (cancel_events r) \<Longrightarrow>
     (\<exists>f. e = FutureCancel f) \<or> (\<exists>p. e = WorkerShutdownStop p)"
  by (auto simp: cancel_events_def split: option.splits)

lemma cancel_events_exclude [simp]:
  "RunTask k \<notin> set (cancel_events r)"
  "GenerateCot k \<notin> set (cancel_events r)"
  by (auto dest!: cancel_events_are_cancellations)

lemma run_handler_fst:
  "fst (run_handler s e \<sigma>) =
     (case exit_code e of Some c \<Rightarrow> Inr (worst_level s c) | None \<Rightarrow> Inl e)"
  by (simp add: run_handler_def split: option.splits)

lemma cancellable_verify_fst:
  "fst (cancellable_verify_chain_of_trust ST aw \<sigma>) =
     (if is_cancelled (self \<sigma>) \<or> result aw = Raises CancelledError
      then Inl (CoTError ''Chain of Trust verification was aborted'' (worker_shutdown ST))
      else (case result aw of Raises e \<Rightarrow> Inl e | Returns v \<Rightarrow> Inr v))"
  by (simp add: cancellable_verify_chain_of_trust_def run_cancellable_def Let_def
      split: outcome.splits)

lemma run_task_fst:
  "fst (run_task k r \<sigma>) = (case run_result r of Raises e \<Rightarrow> Inl e | Returns s \<Rightarrow> Inr s)"
  by (simp add: run_task_def Let_def split: outcome.splits)

lemma generate_cot_fst:
  "fst (generate_cot k r \<sigma>) = (case r of Raises e \<Rightarrow> Inl e | Returns v \<Rightarrow> Inr v)"
  by (simp add: generate_cot_def split: outcome.splits)

lemma do_run_task_fst:
  "fst (do_run_task ST t \<sigma>) =
     (case (if verify_chain_of_trust (config \<sigma>)
            then fst (cancellable_verify_chain_of_trust ST (verify t) \<sigma>) else Inr ()) of
        Inl e \<Rightarrow> fst (run_handler 0 e \<sigma>)
      | Inr _ \<Rightarrow>
          (case run_result (run t) of
             Raises e \<Rightarrow> fst (run_handler 0 e \<sigma>)
           | Returns s \<Rightarrow>
               (case gen_cot t of
                  Raises e \<Rightarrow> fst (run_handler s e \<sigma>)
                | Returns _ \<Rightarrow> Inr s)))"
proof -
  have "fst (do_run_task ST t \<sigma>) =
      (case (if verify_chain_of_trust (config \<sigma>)
            then cancellable_verify_chain_of_trust ST (verify t) \<sigma> else (Inr (), \<sigma>)) of
        (Inl e, \<sigma>1) \<Rightarrow> fst (run_handler 0 e \<sigma>1)
      | (Inr _, \<sigma>1) \<Rightarrow>
          (case fst (run_task (task_defn t) (run t) \<sigma>1) of
             Inl e \<Rightarrow> fst (run_handler 0 e \<sigma>1)
           | Inr s \<Rightarrow>
               (case fst (generate_cot (task_defn t) (gen_cot t) \<sigma>1) of
                  Inl e \<Rightarrow> fst (run_handler s e \<sigma>1)
                | Inr _ \<Rightarrow> Inr s)))"
    by (simp add: do_run_task_def Let_def run_handler_fst generate_cot_def
        split: prod.splits sum.splits outcome.splits option.splits)
  then show ?thesis
    by (simp add: run_task_fst generate_cot_fst run_handler_fst
        split: prod.splits sum.splits outcome.splits option.splits if_splits)
qed

text \<open>The loop over a list of tasks, split at any point.\<close>

lemma run_loop_append:
  "run_loop ST st (xs @ ys) \<sigma> =
     (case run_loop ST st xs \<sigma> of
        (Inl e, \<sigma>') \<Rightarrow> (Inl e, \<sigma>')
      | (Inr st', \<sigma>') \<Rightarrow> run_loop ST st' ys \<sigma>')"
  by (induction xs arbitrary: st \<sigma>) (auto split: prod.splits sum.splits)

lemma run_loop_forgets:
  "ys \<noteq> [] \<Longrightarrow> run_loop ST st ys \<sigma> = run_loop ST None ys \<sigma>"
  by (cases ys) simp_all

lemma run_loop_status:
  "run_loop ST st ts \<sigma> = (Inr r, \<sigma>') \<Longrightarrow> st \<noteq> None \<or> ts \<noteq> [] \<Longrightarrow> r \<noteq> None"
  by (induction ts arbitrary: st \<sigma>) (auto split: prod.splits sum.splits)

text \<open>On the exit paths the orchestrator handles itself every task runs to its end.\<close>

lemma handled_do_run_task: "handled t \<Longrightarrow> \<exists>s. fst (do_run_task ST t \<sigma>) = Inr s"
  by (auto simp: handled_def structured_def do_run_task_fst cancellable_verify_fst
      run_handler_fst split: outcome.splits option.splits)

lemma handled_do_upload: "handled t \<Longrightarrow> \<exists>u. fst (do_upload ST t \<sigma>) = Inr u"
  by (auto simp: handled_def structured_def do_upload_fst
      split: outcome.splits option.splits)

lemma handled_run_one:
  assumes "handled t"
  shows "\<exists>s \<sigma>'. run_one ST t \<sigma> = (Inr s, \<sigma>')"
proof -
  let ?\<sigma>2 = "emit (ReclaimStart (task_defn t)) (emit (PrepareToRunTask (task_defn t)) \<sigma>)"
  from handled_do_run_task [OF assms] obtain s \<sigma>3
    where 3: "do_run_task ST t ?\<sigma>2 = (Inr s, \<sigma>3)"
    by (metis prod.collapse)
  from handled_do_upload [OF assms] obtain u \<sigma>4
    where 4: "do_upload ST t \<sigma>3 = (Inr u, \<sigma>4)"
    by (metis prod.collapse)
  have "result (complete t) = Returns ()"
    using assms by (simp add: handled_def)
  with 3 4 show ?thesis
    by (simp add: run_one_def await_ext_eq Let_def)
qed

lemma handled_run_loop:
  "\<forall>t\<in>set ts. handled t \<Longrightarrow> \<exists>r \<sigma>'. run_loop ST st ts \<sigma> = (Inr r, \<sigma>')"
proof (induction ts arbitrary: st \<sigma>)
  case Nil
  then show ?case by simp
next
  case (Cons t ts)
  then obtain s \<sigma>1 where "run_one ST t \<sigma> = (Inr s, \<sigma>1)"
    using handled_run_one [of t ST \<sigma>] by auto
  with Cons show ?case by simp
qed

text \<open>The result of one task and of an iteration, read off the results of the stages.\<close>

lemma run_cancellable_after:
  "\<not> is_cancelled (self \<sigma>) \<Longrightarrow>
     is_cancelled (self (snd (run_cancellable c aw \<sigma>))) = (0 < cancels aw) \<and>
     config (snd (run_cancellable c aw \<sigma>)) = config \<sigma>"
  by (simp add: run_cancellable_def Let_def split: outcome.splits)

lemma do_run_task_fst_emit:
  "fst (do_run_task ST t (emit ev \<sigma>)) = fst (do_run_task ST t \<sigma>)"
  by (simp add: do_run_task_fst cancellable_verify_fst run_handler_fst
      split: sum.splits outcome.splits)

lemma do_upload_fst_any: "fst (do_upload ST t \<sigma>) = fst (do_upload ST t \<sigma>')"
  by (simp add: do_upload_fst)

lemma run_one_fst:
  "fst (run_one ST t \<sigma>) =
     (case fst (do_run_task ST t \<sigma>) of
        Inl e \<Rightarrow> Inl e
      | Inr s \<Rightarrow>
          (case fst (do_upload ST t \<sigma>) of
             Inl e \<Rightarrow> Inl e
           | Inr u \<Rightarrow>
               (case result (complete t) of
                  Raises e \<Rightarrow> Inl e
                | Returns _ \<Rightarrow> Inr (worst_level s u))))"
proof -
  let ?\<sigma>2 = "emit (ReclaimStart (task_defn t)) (emit (PrepareToRunTask (task_defn t)) \<sigma>)"
  obtain r3 \<sigma>3 where 3: "do_run_task ST t ?\<sigma>2 = (r3, \<sigma>3)"
    by (cases "do_run_task ST t ?\<sigma>2")
  obtain r4 \<sigma>4 where 4: "do_upload ST t \<sigma>3 = (r4, \<sigma>4)"
    by (cases "do_upload ST t \<sigma>3")
  have r3: "fst (do_run_task ST t \<sigma>) = r3"
    using 3 do_run_task_fst_emit [of ST t "ReclaimStart (task_defn t)"
        "emit (PrepareToRunTask (task_defn t)) \<sigma>"]
      do_run_task_fst_emit [of ST t "PrepareToRunTask (task_defn t)" \<sigma>]
    by simp
  have r4: "fst (do_upload ST t \<sigma>) = r4"
    using 4 do_upload_fst_any [of ST t \<sigma> \<sigma>3] by simp
  show ?thesis
    unfolding r3 r4 using 3 4
    by (simp add: run_one_def await_ext_eq Let_def split: sum.splits outcome.splits)
qed

lemma invoke_one_fst:
  assumes "\<not> is_cancelled (self \<sigma>)" and "result (claim sc) = Returns [t]"
  shows "fst (invoke ST sc \<sigma>) =
     (case fst (run_one ST t (snd (run_cancellable Claim_work (claim sc) \<sigma>))) of
        Inl e \<Rightarrow> fst (invoke_handler e \<sigma>)
      | Inr s \<Rightarrow> Inr (Some s))"
proof -
  obtain r1 \<sigma>1 where 1: "run_cancellable Claim_work (claim sc) \<sigma> = (r1, \<sigma>1)"
    by (cases "run_cancellable Claim_work (claim sc) \<sigma>")
  have r1: "r1 = Inr [t]"
    using 1 assms run_cancellable_fst [of Claim_work "claim sc" \<sigma>] by simp
  obtain r \<sigma>2 where 2: "run_one ST t \<sigma>1 = (r, \<sigma>2)"
    by (cases "run_one ST t \<sigma>1")
  show ?thesis
    using 1 r1 2 by (simp add: invoke_def invoke_handler_def split: sum.splits)
qed

text \<open>What a task that runs to its end leaves in the trace.\<close>

lemma run_one_events:
  assumes "fst (run_one ST t \<sigma>) = Inr s"
  shows "UploadArtifacts (task_defn t) \<in> set (trace (snd (run_one ST t \<sigma>))) \<and>
         CompleteTask (task_defn t) s \<in> set (trace (snd (run_one ST t \<sigma>))) \<and>
         ReclaimCancel (task_defn t) \<in> set (trace (snd (run_one ST t \<sigma>)))"
proof -
  let ?\<sigma>2 = "emit (ReclaimStart (task_defn t)) (emit (PrepareToRunTask (task_defn t)) \<sigma>)"
  obtain r3 \<sigma>3 where 3: "do_run_task ST t ?\<sigma>2 = (r3, \<sigma>3)"
    by (cases "do_run_task ST t ?\<sigma>2")
  obtain r4 \<sigma>4 where 4: "do_upload ST t \<sigma>3 = (r4, \<sigma>4)"
    by (cases "do_upload ST t \<sigma>3")
  have \<sigma>4: "\<sigma>4 = arrivals (cancels (upload t)) (emit (UploadArtifacts (task_defn t)) \<sigma>3)"
    using 4 do_upload_snd [of ST t \<sigma>3] by simp
  from assms 3 4 obtain s' u where r3: "r3 = Inr s'" and r4: "r4 = Inr u"
    and c: "result (complete t) = Returns ()" and s: "s = worst_level s' u"
    by (auto simp: run_one_def await_ext_eq Let_def split: sum.splits outcome.splits)
  have "run_one ST t \<sigma> =
      (Inr s, emit Cleanup (emit (ReclaimCancel (task_defn t))
                 (arrivals (cancels (complete t)) (emit (CompleteTask (task_defn t) s) \<sigma>4))))"
    using 3 4 r3 r4 c s by (simp add: run_one_def await_ext_eq Let_def)
  then show ?thesis
    by (simp add: \<sigma>4)
qed

lemma invoke_one:
  assumes "\<not> is_cancelled (self \<sigma>)" and "result (claim sc) = Returns [t]"
    and "run_one ST t (snd (run_cancellable Claim_work (claim sc) \<sigma>)) = (Inr s, \<sigma>')"
  shows "invoke ST sc \<sigma> = (Inr (Some s), \<sigma>')"
proof -
  obtain r1 \<sigma>1 where 1: "run_cancellable Claim_work (claim sc) \<sigma> = (r1, \<sigma>1)"
    by (cases "run_cancellable Claim_work (claim sc) \<sigma>")
  have r1: "r1 = Inr [t]"
    using 1 assms(1,2) run_cancellable_fst [of Claim_work "claim sc" \<sigma>] by simp
  from assms(3) 1 have "run_one ST t \<sigma>1 = (Inr s, \<sigma>')"
    by simp
  with 1 r1 show ?thesis
    by (simp add: invoke_def)
qed

text \<open>No function of the model removes an event from the trace.\<close>

lemma run_cancellable_mono:
  "run_cancellable c aw \<sigma> = (r, \<sigma>') \<Longrightarrow> set (trace \<sigma>) \<subseteq> set (trace \<sigma>')"
  by (auto simp: run_cancellable_def Let_def split: if_splits outcome.splits)

lemma cancellable_verify_mono:
  "cancellable_verify_chain_of_trust ST aw \<sigma> = (r, \<sigma>') \<Longrightarrow> set (trace \<sigma>) \<subseteq> set (trace \<sigma>')"
  by (auto simp: cancellable_verify_chain_of_trust_def Let_def
      split: if_splits prod.splits sum.splits dest!: run_cancellable_mono)

lemma to_cancellable_process_trace:
  "trace (to_cancellable_process p \<sigma>) =
     trace \<sigma> @ (if is_cancelled (self \<sigma>) then [WorkerShutdownStop p] else [])"
  by (simp add: to_cancellable_process_def Let_def)

lemma run_task_mono:
  "run_task k r \<sigma> = (x, \<sigma>') \<Longrightarrow> set (trace \<sigma>) \<subseteq> set (trace \<sigma>')"
  by (auto simp: run_task_def Let_def to_cancellable_process_trace
      split: option.splits outcome.splits)

lemma generate_cot_mono:
  "generate_cot k r \<sigma> = (x, \<sigma>') \<Longrightarrow> set (trace \<sigma>) \<subseteq> set (trace \<sigma>')"
  by (auto simp: generate_cot_def split: outcome.splits)

lemma do_run_task_mono:
  "do_run_task ST t \<sigma> = (x, \<sigma>') \<Longrightarrow> set (trace \<sigma>) \<subseteq> set (trace \<sigma>')"
  by (auto simp: do_run_task_def Let_def
      split: if_splits prod.splits sum.splits
      dest!: run_handler_keeps cancellable_verify_mono run_task_mono generate_cot_mono)

lemma do_upload_mono:
  "do_upload ST t \<sigma> = (x, \<sigma>') \<Longrightarrow> set (trace \<sigma>) \<subseteq> set (trace \<sigma>')"
  using do_upload_snd [of ST t \<sigma>] by auto

lemma run_one_starts:
  assumes "run_one ST t \<sigma> = (x, \<sigma>')"
  shows "set (trace \<sigma>) \<subseteq> set (trace \<sigma>') \<and> ReclaimStart (task_defn t) \<in> set (trace \<sigma>')"
proof -
  let ?\<sigma>2 = "emit (ReclaimStart (task_defn t)) (emit (PrepareToRunTask (task_defn t)) \<sigma>)"
  obtain r3 \<sigma>3 where 3: "do_run_task ST t ?\<sigma>2 = (r3, \<sigma>3)"
    by (cases "do_run_task ST t ?\<sigma>2")
  obtain r4 \<sigma>4 where 4: "do_upload ST t \<sigma>3 = (r4, \<sigma>4)"
    by (cases "do_upload ST t \<sigma>3")
  have a: "set (trace ?\<sigma>2) \<subseteq> set (trace \<sigma>3)"
    using do_run_task_mono [OF 3] .
  have b: "set (trace \<sigma>3) \<subseteq> set (trace \<sigma>4)"
    using do_upload_mono [OF 4] .
  have "set (trace ?\<sigma>2) \<subseteq> set (trace \<sigma>')"
    using assms 3 4 a b
    by (auto simp: run_one_def await_ext_eq Let_def split: sum.splits outcome.splits)
  then show ?thesis
    by auto
qed

lemma run_loop_starts:
  "run_loop ST st ts \<sigma> = (Inr r, \<sigma>') \<Longrightarrow>
     set (trace \<sigma>) \<subseteq> set (trace \<sigma>') \<and>
     (\<forall>t \<in> set ts. ReclaimStart (task_defn t) \<in> set (trace \<sigma>'))"
proof (induction ts arbitrary: st \<sigma>)
  case Nil
  then show ?case by simp
next
  case (Cons t ts)
  obtain x \<sigma>1 where 1: "run_one ST t \<sigma> = (x, \<sigma>1)"
    by (cases "run_one ST t \<sigma>")
  with Cons.prems obtain s where x: "x = Inr s"
    and rest: "run_loop ST (Some s) ts \<sigma>1 = (Inr r, \<sigma>')"
    by (cases x) auto
  from run_one_starts [OF 1] Cons.IH [OF rest] show ?case
    by auto
qed

lemma count_list_concat_replicate:
  "count_list (concat (replicate n xs)) x = n * count_list xs x"
  by (induction n) simp_all

section \<open>The cancellation token\<close>

text \<open>
  C7.  \<open>_run_cancellable\<close> raises \<open>CancelledError\<close> at once, scheduling nothing, when the
  token is already cancelled.  Otherwise it schedules the operation and registers it as
  the in-flight handle: every \<open>cancel()\<close> that arrives during the await calls
  \<open>cancel()\<close> on this very future.  When the operation returns, the handle is cleared and
  the result is returned; when it raises, the exception is propagated.
\<close>

theorem run_cancellable_contract:
  "(is_cancelled (self \<sigma>) \<longrightarrow> run_cancellable c aw \<sigma> = (Inl CancelledError, \<sigma>)) \<and>
   (\<not> is_cancelled (self \<sigma>) \<longrightarrow>
      trace (snd (run_cancellable c aw \<sigma>)) =
        trace \<sigma> @ EnsureFuture c #
          concat (replicate (cancels aw) (cancel_events ((self \<sigma>)\<lparr>future := Some c\<rparr>))) \<and>
      (\<forall>v. result aw = Returns v \<longrightarrow>
         fst (run_cancellable c aw \<sigma>) = Inr v \<and>
         future (self (snd (run_cancellable c aw \<sigma>))) = None) \<and>
      (\<forall>e. result aw = Raises e \<longrightarrow> fst (run_cancellable c aw \<sigma>) = Inl e))"
  by (simp add: run_cancellable_def Let_def split: outcome.splits)

theorem run_cancellable_contract_witness:
  "is_cancelled (self world_cancelled) \<and>
   run_cancellable Claim_work \<lparr>cancels = 0, result = Returns [task_ok]\<rparr> world_cancelled =
     (Inl CancelledError, world_cancelled) \<and>
   \<not> is_cancelled (self world_ex) \<and>
   trace (snd (run_cancellable (Sleep 5) \<lparr>cancels = 2, result = Returns ()\<rparr> world_ex)) =
     [EnsureFuture (Sleep 5), FutureCancel (Sleep 5), FutureCancel (Sleep 5)] \<and>
   fst (run_cancellable (Sleep 5) \<lparr>cancels = 2, result = Returns ()\<rparr> world_ex) = Inr () \<and>
   future (self (snd (run_cancellable (Sleep 5) \<lparr>cancels = 2, result = Returns ()\<rparr> world_ex)))
     = None"
  using run_cancellable_contract
          [of world_cancelled Claim_work "\<lparr>cancels = 0, result = Returns [task_ok]\<rparr>"]
        run_cancellable_contract [of world_ex "Sleep 5" "\<lparr>cancels = 2, result = Returns ()\<rparr>"]
  by (simp add: world_cancelled_def world_ex_def RunTasks_init_def cancel_events_def
      numeral_2_eq_2)

text \<open>
  C3, as the code has it.  \<open>cancel()\<close> sets the flag, calls \<open>cancel()\<close> on the in-flight
  future if one is registered and calls \<open>worker_shutdown_stop()\<close> on the subprocess if one
  is registered.  A second call leaves the fields of the token as the first call left
  them, but every call asks the registered subprocess to terminate again: after \<open>n\<close>
  calls the request has been made \<open>n\<close> times.
\<close>

theorem cancel_requests_stop_on_every_call:
  "is_cancelled (self (cancel \<sigma>)) \<and>
   future (self (cancel \<sigma>)) = future (self \<sigma>) \<and>
   task_process (self (cancel \<sigma>)) = task_process (self \<sigma>) \<and>
   trace (cancel \<sigma>) =
     trace \<sigma> @ (case future (self \<sigma>) of None \<Rightarrow> [] | Some f \<Rightarrow> [FutureCancel f])
             @ (case task_process (self \<sigma>) of None \<Rightarrow> [] | Some p \<Rightarrow> [WorkerShutdownStop p]) \<and>
   self (cancel (cancel \<sigma>)) = self (cancel \<sigma>) \<and>
   (task_process (self \<sigma>) = Some p \<longrightarrow>
      count_list (trace (arrivals n \<sigma>)) (WorkerShutdownStop p) =
        count_list (trace \<sigma>) (WorkerShutdownStop p) + n)"
  by (simp add: cancel_eq cancel_events_def count_list_concat_replicate split: option.splits)

theorem cancel_requests_stop_on_every_call_witness:
  "task_process (self world_proc) = Some 7 \<and>
   count_list (trace (arrivals 3 world_proc)) (WorkerShutdownStop 7) = 3"
  using cancel_requests_stop_on_every_call [of world_proc 7 3]
  by (simp add: world_proc_def world_ex_def RunTasks_init_def)

text \<open>
  C3, as the claim has it: on a token with subprocess 7 registered, two calls of
  \<open>cancel()\<close> request the termination of the subprocess twice, one call once.
\<close>

theorem cancel_twice_counterexample:
  "trace (cancel world_proc) = [WorkerShutdownStop 7] \<and>
   trace (cancel (cancel world_proc)) = [WorkerShutdownStop 7, WorkerShutdownStop 7]"
  by (simp add: cancel_eq cancel_events_def world_proc_def world_ex_def RunTasks_init_def)

text \<open>
  C5.  When the token is already cancelled, or the awaited verification future is
  cancelled, \<open>cancellable_verify_chain_of_trust\<close> raises the Chain of Trust failure with
  the worker-shutdown code; and whatever happens, \<open>CancelledError\<close> never leaves it.
\<close>

theorem verify_abort_is_worker_shutdown:
  "(is_cancelled (self \<sigma>) \<or> result aw = Raises CancelledError \<longrightarrow>
      fst (cancellable_verify_chain_of_trust STATUSES aw \<sigma>) =
        Inl (CoTError ''Chain of Trust verification was aborted'' (worker_shutdown STATUSES))) \<and>
   fst (cancellable_verify_chain_of_trust STATUSES aw \<sigma>) \<noteq> Inl CancelledError"
  by (simp add: cancellable_verify_chain_of_trust_def run_cancellable_def Let_def
      split: outcome.splits)

theorem verify_abort_is_worker_shutdown_witness:
  "result \<lparr>cancels = 1, result = Raises CancelledError :: unit outcome\<rparr> = Raises CancelledError \<and>
   fst (cancellable_verify_chain_of_trust STATUSES_ex
          \<lparr>cancels = 1, result = Raises CancelledError\<rparr> world_ex) =
     Inl (CoTError ''Chain of Trust verification was aborted'' 2) \<and>
   is_cancelled (self world_cancelled) \<and>
   fst (cancellable_verify_chain_of_trust STATUSES_ex (quiet ()) world_cancelled) =
     Inl (CoTError ''Chain of Trust verification was aborted'' 2)"
  using verify_abort_is_worker_shutdown
          [of world_ex "\<lparr>cancels = 1, result = Raises CancelledError\<rparr>" STATUSES_ex]
        verify_abort_is_worker_shutdown [of world_cancelled "quiet ()" STATUSES_ex]
  by (simp add: STATUSES_ex_def world_cancelled_def world_ex_def RunTasks_init_def)

section \<open>The upload stage\<close>

text \<open>
  C9.  A transport error of \<open>upload_artifacts\<close> does not leave \<open>do_upload\<close>: the stage
  returns the intermittent-task code combined with its initial status 0, which is the
  intermittent-task code itself when that code is not below 0.  A structured worker failure
  is absorbed in the same way but contributes its own exit code.
\<close>

theorem do_upload_absorbs_transport_error:
  "(result (upload t) = Raises ClientError \<longrightarrow>
      fst (do_upload STATUSES t \<sigma>) = Inr (worst_level 0 (intermittent_task STATUSES)) \<and>
      (0 \<le> intermittent_task STATUSES \<longrightarrow>
         fst (do_upload STATUSES t \<sigma>) = Inr (intermittent_task STATUSES))) \<and>
   (result (upload t) = Raises e \<and> exit_code e = Some c \<longrightarrow>
      fst (do_upload STATUSES t \<sigma>) = Inr (worst_level 0 c))"
  by (auto simp: do_upload_def await_ext_def Let_def worst_level_def)

theorem do_upload_absorbs_transport_error_witness:
  "result (upload (task_ok\<lparr>upload := \<lparr>cancels = 0, result = Raises ClientError\<rparr>\<rparr>)) =
     Raises ClientError \<and>
   0 \<le> intermittent_task STATUSES_ex \<and>
   fst (do_upload STATUSES_ex
          (task_ok\<lparr>upload := \<lparr>cancels = 0, result = Raises ClientError\<rparr>\<rparr>) world_ex) = Inr 7 \<and>
   exit_code (ScriptWorkerException 5) = Some 5 \<and>
   fst (do_upload STATUSES_ex
          (task_ok\<lparr>upload := \<lparr>cancels = 0, result = Raises (ScriptWorkerException 5)\<rparr>\<rparr>)
          world_ex) = Inr 5"
  using do_upload_absorbs_transport_error
          [where t = "task_ok\<lparr>upload := \<lparr>cancels = 0, result = Raises ClientError\<rparr>\<rparr>"
             and STATUSES = STATUSES_ex and \<sigma> = world_ex]
        do_upload_absorbs_transport_error
          [where t = "task_ok\<lparr>upload := \<lparr>cancels = 0,
                                           result = Raises (ScriptWorkerException 5)\<rparr>\<rparr>"
             and e = "ScriptWorkerException 5" and c = 5
             and STATUSES = STATUSES_ex and \<sigma> = world_ex]
  by (simp add: STATUSES_ex_def worst_level_def)

section \<open>One task of an iteration\<close>

text \<open>
  C10.  Verification is configured, the token is not cancelled, and verification raises
  a structured worker failure with exit code \<open>c\<close>.  Then neither \<open>run_task\<close> nor
  \<open>generate_cot\<close> is called for the task, but the artifacts are uploaded; and when the
  upload stage yields the status \<open>u\<close> and the report of completion returns, the task is
  reported complete with \<open>worst_level (worst_level 0 c) u\<close>, its lease renewal is cancelled
  and the loop goes on with that status.
\<close>

theorem verification_failure_skips_run_only:
  assumes "verify_chain_of_trust (config \<sigma>)" and "\<not> is_cancelled (self \<sigma>)"
    and "result (verify t) = Raises e" and "exit_code e = Some c"
    and "fst (do_upload STATUSES t \<sigma>) = Inr u"
    and "result (complete t) = Returns ()"
  shows "fst (run_one STATUSES t \<sigma>) = Inr (worst_level (worst_level 0 c) u) \<and>
     (\<forall>k. RunTask k \<notin> set (drop (length (trace \<sigma>)) (trace (snd (run_one STATUSES t \<sigma>))))) \<and>
     (\<forall>k. GenerateCot k \<notin> set (drop (length (trace \<sigma>)) (trace (snd (run_one STATUSES t \<sigma>))))) \<and>
     UploadArtifacts (task_defn t) \<in> set (trace (snd (run_one STATUSES t \<sigma>))) \<and>
     CompleteTask (task_defn t) (worst_level (worst_level 0 c) u)
       \<in> set (trace (snd (run_one STATUSES t \<sigma>))) \<and>
     ReclaimCancel (task_defn t) \<in> set (trace (snd (run_one STATUSES t \<sigma>)))"
proof -
  let ?\<sigma>2 = "emit (ReclaimStart (task_defn t)) (emit (PrepareToRunTask (task_defn t)) \<sigma>)"
  let ?\<sigma>3 = "arrivals (cancels (verify t))
               (emit (EnsureFuture Verify_chain_of_trust)
                  (?\<sigma>2\<lparr>self := (self ?\<sigma>2)\<lparr>future := Some Verify_chain_of_trust\<rparr>\<rparr>))"
  have ne: "e \<noteq> CancelledError"
    using assms(4) by auto
  have run: "do_run_task STATUSES t ?\<sigma>2 = (Inr (worst_level 0 c), ?\<sigma>3)"
    using assms(1-4) ne
    by (simp add: do_run_task_def cancellable_verify_chain_of_trust_def run_cancellable_def
        run_handler_def Let_def)
  obtain \<sigma>4 where up: "do_upload STATUSES t ?\<sigma>3 = (Inr u, \<sigma>4)"
    and \<sigma>4: "\<sigma>4 = arrivals (cancels (upload t)) (emit (UploadArtifacts (task_defn t)) ?\<sigma>3)"
    using assms(5) do_upload_fst [of STATUSES t \<sigma>] do_upload_fst [of STATUSES t ?\<sigma>3]
      do_upload_snd [of STATUSES t ?\<sigma>3]
    by (cases "do_upload STATUSES t ?\<sigma>3") simp
  let ?s = "worst_level (worst_level 0 c) u"
  have one: "run_one STATUSES t \<sigma> =
      (Inr ?s, emit Cleanup (emit (ReclaimCancel (task_defn t))
                 (arrivals (cancels (complete t)) (emit (CompleteTask (task_defn t) ?s) \<sigma>4))))"
    using run up assms(6) by (simp add: run_one_def await_ext_eq Let_def)
  show ?thesis
    unfolding one by (simp add: \<sigma>4)
qed

theorem verification_failure_skips_run_only_witness:
  "verify_chain_of_trust (config world_ex) \<and> \<not> is_cancelled (self world_ex) \<and>
   result (verify task_bad_cot) = Raises (ScriptWorkerException 3) \<and>
   exit_code (ScriptWorkerException 3) = Some 3 \<and>
   fst (do_upload STATUSES_ex task_bad_cot world_ex) = Inr 0 \<and>
   result (complete task_bad_cot) = Returns () \<and>
   fst (run_one STATUSES_ex task_bad_cot world_ex) = Inr 3 \<and>
   CompleteTask 1 3 \<in> set (trace (snd (run_one STATUSES_ex task_bad_cot world_ex)))"
proof -
  have h1: "verify_chain_of_trust (config world_ex)"
    and h2: "\<not> is_cancelled (self world_ex)"
    by (simp_all add: world_ex_def RunTasks_init_def)
  have h3: "result (verify task_bad_cot) = Raises (ScriptWorkerException 3)"
    and h6: "result (complete task_bad_cot) = Returns ()"
    by (simp_all add: task_bad_cot_def task_ok_def quiet_def)
  have h4: "exit_code (ScriptWorkerException 3) = Some 3"
    by simp
  have h5: "fst (do_upload STATUSES_ex task_bad_cot world_ex) = Inr 0"
    by (simp add: do_upload_fst task_bad_cot_def task_ok_def quiet_def)
  have k: "task_defn task_bad_cot = 1"
    by (simp add: task_bad_cot_def task_ok_def)
  from verification_failure_skips_run_only [OF h1 h2 h3 h4 h5 h6] h1 h2 h3 h5 h6
  show ?thesis
    by (simp add: worst_level_def k)
qed



section \<open>An iteration over several tasks\<close>

text \<open>
  C8.  The loop handles the tasks of a claim one after the other: a list split at any
  point is handled by handling the first part and then, from the state this leaves, the
  rest; and the status the first part yields is dropped as soon as a further task runs to
  its end.  So when the claim returns the tasks \<open>ts\<close> followed by \<open>t\<close>, the tasks \<open>ts\<close> run to
  their end and \<open>t\<close> then yields \<open>s\<close>, \<open>invoke\<close> returns \<open>s\<close>, which is the combination by
  \<open>worst_level\<close> of the statuses of the execute and the upload stage of \<open>t\<close> alone.
\<close>

theorem last_task_decides_status:
  "run_loop STATUSES st (xs @ ys) \<sigma> =
     (case run_loop STATUSES st xs \<sigma> of
        (Inl e, \<sigma>') \<Rightarrow> (Inl e, \<sigma>')
      | (Inr st', \<sigma>') \<Rightarrow> if ys = [] then (Inr st', \<sigma>') else run_loop STATUSES None ys \<sigma>') \<and>
   (run_cancellable Claim_work (claim sc) \<sigma> = (Inr (ts @ [t]), \<sigma>a) \<and>
    run_loop STATUSES None ts \<sigma>a = (Inr st', \<sigma>b) \<and>
    run_one STATUSES t \<sigma>b = (Inr s, \<sigma>c) \<longrightarrow>
      invoke STATUSES sc \<sigma> = (Inr (Some s), \<sigma>c) \<and>
      (\<exists>s_run u. fst (do_run_task STATUSES t \<sigma>b) = Inr s_run \<and>
                 fst (do_upload STATUSES t \<sigma>b) = Inr u \<and> s = worst_level s_run u))"
proof -
  have split: "run_loop STATUSES st (xs @ ys) \<sigma> =
     (case run_loop STATUSES st xs \<sigma> of
        (Inl e, \<sigma>') \<Rightarrow> (Inl e, \<sigma>')
      | (Inr st', \<sigma>') \<Rightarrow> if ys = [] then (Inr st', \<sigma>') else run_loop STATUSES None ys \<sigma>')"
  proof (cases "run_loop STATUSES st xs \<sigma>")
    case (Pair r \<sigma>')
    show ?thesis
    proof (cases r)
      case (Inl e)
      with Pair show ?thesis by (simp add: run_loop_append)
    next
      case (Inr st')
      have "run_loop STATUSES st' ys \<sigma>' =
          (if ys = [] then (Inr st', \<sigma>') else run_loop STATUSES None ys \<sigma>')"
        by (cases ys) simp_all
      with Pair Inr show ?thesis by (simp add: run_loop_append)
    qed
  qed
  have last: "invoke STATUSES sc \<sigma> = (Inr (Some s), \<sigma>c) \<and>
      (\<exists>s_run u. fst (do_run_task STATUSES t \<sigma>b) = Inr s_run \<and>
                 fst (do_upload STATUSES t \<sigma>b) = Inr u \<and> s = worst_level s_run u)"
    if 1: "run_cancellable Claim_work (claim sc) \<sigma> = (Inr (ts @ [t]), \<sigma>a)"
      and 2: "run_loop STATUSES None ts \<sigma>a = (Inr st', \<sigma>b)"
      and 3: "run_one STATUSES t \<sigma>b = (Inr s, \<sigma>c)"
  proof -
    have "run_loop STATUSES None (ts @ [t]) \<sigma>a = (Inr (Some s), \<sigma>c)"
      using 2 3 by (simp add: run_loop_append)
    then have "invoke STATUSES sc \<sigma> = (Inr (Some s), \<sigma>c)"
      using 1 by (simp add: invoke_def)
    moreover have "fst (run_one STATUSES t \<sigma>b) = Inr s"
      using 3 by simp
    then have "\<exists>s_run u. fst (do_run_task STATUSES t \<sigma>b) = Inr s_run \<and>
                 fst (do_upload STATUSES t \<sigma>b) = Inr u \<and> s = worst_level s_run u"
      by (auto simp: run_one_fst split: sum.splits outcome.splits)
    ultimately show ?thesis by simp
  qed
  from last have "run_cancellable Claim_work (claim sc) \<sigma> = (Inr (ts @ [t]), \<sigma>a) \<and>
      run_loop STATUSES None ts \<sigma>a = (Inr st', \<sigma>b) \<and>
      run_one STATUSES t \<sigma>b = (Inr s, \<sigma>c) \<longrightarrow>
        invoke STATUSES sc \<sigma> = (Inr (Some s), \<sigma>c) \<and>
        (\<exists>s_run u. fst (do_run_task STATUSES t \<sigma>b) = Inr s_run \<and>
                   fst (do_upload STATUSES t \<sigma>b) = Inr u \<and> s = worst_level s_run u)"
    by (intro impI) (elim conjE)
  with split show ?thesis by (rule conjI)
qed

theorem last_task_decides_status_witness:
  "fst (run_one STATUSES_ex task_transport
          (snd (run_cancellable Claim_work (claim (claims [task_transport, task_ok])) world_ex)))
     = Inr 7 \<and>
   fst (invoke STATUSES_ex (claims [task_transport, task_ok]) world_ex) = Inr (Some 0) \<and>
   trace (snd (invoke STATUSES_ex (claims [task_transport, task_ok]) world_ex)) =
     [EnsureFuture Claim_work,
      PrepareToRunTask 2, ReclaimStart 2, EnsureFuture Verify_chain_of_trust, RunTask 2,
      GenerateCot 2, UploadArtifacts 2, CompleteTask 2 7, ReclaimCancel 2, Cleanup,
      PrepareToRunTask 1, ReclaimStart 1, EnsureFuture Verify_chain_of_trust, RunTask 1,
      GenerateCot 1, UploadArtifacts 1, CompleteTask 1 0, ReclaimCancel 1, Cleanup]"
proof -
  let ?sc = "claims [task_transport, task_ok]"
  let ?\<sigma>1 = "snd (run_cancellable Claim_work (claim ?sc) world_ex)"
  let ?\<sigma>2 = "snd (run_loop STATUSES_ex None [task_transport] ?\<sigma>1)"
  let ?\<sigma>3 = "snd (run_one STATUSES_ex task_ok ?\<sigma>2)"
  have h1: "run_cancellable Claim_work (claim ?sc) world_ex
              = (Inr ([task_transport] @ [task_ok]), ?\<sigma>1)"
    by code_simp
  have h2: "run_loop STATUSES_ex None [task_transport] ?\<sigma>1 = (Inr (Some 7), ?\<sigma>2)"
    by code_simp
  have h3: "run_one STATUSES_ex task_ok ?\<sigma>2 = (Inr 0, ?\<sigma>3)"
    by code_simp
  have first: "fst (run_one STATUSES_ex task_transport ?\<sigma>1) = Inr 7"
    by code_simp
  have tr: "trace ?\<sigma>3 =
     [EnsureFuture Claim_work,
      PrepareToRunTask 2, ReclaimStart 2, EnsureFuture Verify_chain_of_trust, RunTask 2,
      GenerateCot 2, UploadArtifacts 2, CompleteTask 2 7, ReclaimCancel 2, Cleanup,
      PrepareToRunTask 1, ReclaimStart 1, EnsureFuture Verify_chain_of_trust, RunTask 1,
      GenerateCot 1, UploadArtifacts 1, CompleteTask 1 0, ReclaimCancel 1, Cleanup]"
    by code_simp
  from last_task_decides_status
         [where sc = ?sc and \<sigma> = world_ex and ts = "[task_transport]" and t = task_ok
            and \<sigma>a = ?\<sigma>1 and \<sigma>b = ?\<sigma>2 and \<sigma>c = ?\<sigma>3 and st' = "Some 7" and s = 0
            and STATUSES = STATUSES_ex]
       h1 h2 h3
  have "invoke STATUSES_ex ?sc world_ex = (Inr (Some 0), ?\<sigma>3)"
    by blast
  with first tr show ?thesis by simp
qed

section \<open>The lease renewal\<close>

text \<open>
  C1, as the code has it.  The token is not cancelled when the iteration begins, the claim
  returns at least one task, and every task ends on one of the exit paths the
  orchestrator handles itself (success, a structured failure in a stage that catches
  it, a transport failure of the upload, a cancelled verification), with \<open>cancel()\<close>
  arriving at any of the awaits any number of times.  Then \<open>invoke\<close> starts a lease
  renewal for every claimed task and returns a status.  And whenever \<open>invoke\<close> returns a
  status, every lease renewal it has started has been cancelled by then: the renewals
  running after the iteration are those that ran before it.
\<close>

theorem lease_renewal_cancelled_before_return:
  "(\<not> is_cancelled (self \<sigma>) \<and> result (claim sc) = Returns ts \<and> ts \<noteq> [] \<and>
    (\<forall>t \<in> set ts. handled t) \<longrightarrow>
      (\<exists>s. fst (invoke STATUSES sc \<sigma>) = Inr (Some s)) \<and>
      (\<forall>t \<in> set ts. ReclaimStart (task_defn t) \<in> set (trace (snd (invoke STATUSES sc \<sigma>))))) \<and>
   (fst (invoke STATUSES sc \<sigma>) = Inr (Some s) \<longrightarrow>
      renewals (trace (snd (invoke STATUSES sc \<sigma>))) live = renewals (trace \<sigma>) live)"
proof -
  obtain r1 \<sigma>1 where 1: "run_cancellable Claim_work (claim sc) \<sigma> = (r1, \<sigma>1)"
    by (cases "run_cancellable Claim_work (claim sc) \<sigma>")
  have keep1: "renewals (trace \<sigma>1) live = renewals (trace \<sigma>) live"
    using run_cancellable_keeps [OF 1] by simp
  have returns: "(\<exists>s. fst (invoke STATUSES sc \<sigma>) = Inr (Some s)) \<and>
      (\<forall>t \<in> set ts. ReclaimStart (task_defn t) \<in> set (trace (snd (invoke STATUSES sc \<sigma>))))"
    if "\<not> is_cancelled (self \<sigma>)" and "result (claim sc) = Returns ts" and "ts \<noteq> []"
      and "\<forall>t \<in> set ts. handled t"
  proof -
    have r1: "r1 = Inr ts"
      using 1 that(1,2) run_cancellable_fst [of Claim_work "claim sc" \<sigma>] by simp
    from handled_run_loop [OF that(4)] obtain r \<sigma>2
      where 2: "run_loop STATUSES None ts \<sigma>1 = (Inr r, \<sigma>2)"
      by blast
    from run_loop_status [OF 2] that(3) obtain s where "r = Some s"
      by auto
    with 1 r1 2 that(3) have "invoke STATUSES sc \<sigma> = (Inr (Some s), \<sigma>2)"
      by (simp add: invoke_def)
    with run_loop_starts [OF 2] show ?thesis
      by simp
  qed
  have cancelled: "renewals (trace (snd (invoke STATUSES sc \<sigma>))) live = renewals (trace \<sigma>) live"
    if res: "fst (invoke STATUSES sc \<sigma>) = Inr (Some s)"
  proof (cases r1)
    case (Inl e)
    with 1 res show ?thesis
      by (simp add: invoke_def invoke_handler_def split: if_splits)
  next
    case (Inr tasks)
    show ?thesis
    proof (cases "tasks = []")
      case True
      obtain r2 \<sigma>2 where
        2: "run_cancellable (Sleep (poll_interval (config \<sigma>1))) (idle sc) \<sigma>1 = (r2, \<sigma>2)"
        by (cases "run_cancellable (Sleep (poll_interval (config \<sigma>1))) (idle sc) \<sigma>1")
      with 1 Inr True res show ?thesis
        by (simp add: invoke_def invoke_handler_def split: sum.splits if_splits)
    next
      case False
      obtain r2 \<sigma>2 where 2: "run_loop STATUSES None tasks \<sigma>1 = (r2, \<sigma>2)"
        by (cases "run_loop STATUSES None tasks \<sigma>1")
      show ?thesis
      proof (cases r2)
        case (Inl e)
        with 1 2 Inr False res show ?thesis
          by (simp add: invoke_def invoke_handler_def split: if_splits)
      next
        case st: (Inr st)
        have "renewals (trace \<sigma>2) live = renewals (trace \<sigma>1) live"
          using run_loop_renewals 2 st by blast
        with 1 2 Inr False st keep1 show ?thesis
          by (simp add: invoke_def)
      qed
    qed
  qed
  from returns cancelled show ?thesis
    by blast
qed

theorem lease_renewal_cancelled_before_return_witness:
  "\<not> is_cancelled (self world_ex) \<and>
   result (claim (claims [task_shutdown, task_transport])) =
     Returns [task_shutdown, task_transport] \<and>
   handled task_shutdown \<and> handled task_transport \<and>
   fst (invoke STATUSES_ex (claims [task_shutdown, task_transport]) world_ex) = Inr (Some 7) \<and>
   trace (snd (invoke STATUSES_ex (claims [task_shutdown, task_transport]) world_ex)) =
     [EnsureFuture Claim_work,
      PrepareToRunTask 1, ReclaimStart 1, EnsureFuture Verify_chain_of_trust,
      FutureCancel Verify_chain_of_trust, UploadArtifacts 1, CompleteTask 1 2,
      ReclaimCancel 1, Cleanup,
      PrepareToRunTask 2, ReclaimStart 2, UploadArtifacts 2, CompleteTask 2 7,
      ReclaimCancel 2, Cleanup] \<and>
   renewals (trace (snd (invoke STATUSES_ex (claims [task_shutdown, task_transport])
                           world_ex))) [] = []"
proof -
  let ?sc = "claims [task_shutdown, task_transport]"
  have h1: "\<not> is_cancelled (self world_ex)"
    and h2: "result (claim ?sc) = Returns [task_shutdown, task_transport]"
    and h3: "handled task_shutdown" and h4: "handled task_transport"
    by code_simp+
  have res: "fst (invoke STATUSES_ex ?sc world_ex) = Inr (Some 7)"
    by code_simp
  have tr: "trace (snd (invoke STATUSES_ex ?sc world_ex)) =
     [EnsureFuture Claim_work,
      PrepareToRunTask 1, ReclaimStart 1, EnsureFuture Verify_chain_of_trust,
      FutureCancel Verify_chain_of_trust, UploadArtifacts 1, CompleteTask 1 2,
      ReclaimCancel 1, Cleanup,
      PrepareToRunTask 2, ReclaimStart 2, UploadArtifacts 2, CompleteTask 2 7,
      ReclaimCancel 2, Cleanup]"
    by code_simp
  have start: "renewals (trace world_ex) [] = []"
    by code_simp
  from lease_renewal_cancelled_before_return
         [where \<sigma> = world_ex and sc = ?sc and ts = "[task_shutdown, task_transport]"
            and STATUSES = STATUSES_ex and s = 7 and live = "[]"]
       h1 h2 h3 h4 res start
  have "renewals (trace (snd (invoke STATUSES_ex ?sc world_ex))) [] = []"
    by simp
  with h1 h2 h3 h4 res tr show ?thesis
    by simp
qed

text \<open>
  C1, as the claim has it: one task is claimed, \<open>cancel()\<close> arrives while the task script
  runs and the await of \<open>run_task\<close> ends with \<open>CancelledError\<close>.  The exception leaves the
  loop before \<open>reclaim_fut.cancel()\<close>, the handler of \<open>invoke\<close> turns it into \<open>None\<close>, and the
  iteration returns with the lease renewal of task 1 still running.
\<close>

theorem renewal_left_running_counterexample:
  "fst (invoke STATUSES_ex (claims [task_run_cancelled]) world_ex) = Inr None \<and>
   trace (snd (invoke STATUSES_ex (claims [task_run_cancelled]) world_ex)) =
     [EnsureFuture Claim_work, PrepareToRunTask 1, ReclaimStart 1,
      EnsureFuture Verify_chain_of_trust, RunTask 1, WorkerShutdownStop 9] \<and>
   renewals (trace (snd (invoke STATUSES_ex (claims [task_run_cancelled]) world_ex))) [] = [1]"
  by code_simp

section \<open>Cancellation of an iteration\<close>

text \<open>
  C6, as the code has it.  \<open>invoke\<close> never lets \<open>CancelledError\<close> out.  When the token is
  already cancelled as the iteration begins, \<open>invoke\<close> returns \<open>None\<close> and leaves the state as
  it is: \<open>claim_work\<close> is not scheduled.  When the future of the claim, or the future of the
  idle sleep after an empty claim, is cancelled, \<open>invoke\<close> returns \<open>None\<close>.  A cancellation
  that reaches the verification of a claimed task does not end the iteration: the
  verification is aborted with the worker-shutdown code, the artifacts are still uploaded
  and the task is still reported complete, with that code combined with the status of the
  upload, and \<open>invoke\<close> returns this status.
\<close>

theorem cancellation_handled_by_invoke:
  "fst (invoke STATUSES sc \<sigma>) \<noteq> Inl CancelledError \<and>
   (is_cancelled (self \<sigma>) \<longrightarrow> invoke STATUSES sc \<sigma> = (Inr None, \<sigma>)) \<and>
   (\<not> is_cancelled (self \<sigma>) \<and> result (claim sc) = Raises CancelledError \<longrightarrow>
      fst (invoke STATUSES sc \<sigma>) = Inr None) \<and>
   (\<not> is_cancelled (self \<sigma>) \<and> result (claim sc) = Returns [] \<and>
    (0 < cancels (claim sc) \<or> result (idle sc) = Raises CancelledError) \<longrightarrow>
      fst (invoke STATUSES sc \<sigma>) = Inr None) \<and>
   (\<not> is_cancelled (self \<sigma>) \<and> result (claim sc) = Returns [t] \<and>
    verify_chain_of_trust (config \<sigma>) \<and>
    (0 < cancels (claim sc) \<or> result (verify t) = Raises CancelledError) \<and>
    fst (do_upload STATUSES t \<sigma>) = Inr u \<and> result (complete t) = Returns () \<longrightarrow>
      fst (invoke STATUSES sc \<sigma>) =
        Inr (Some (worst_level (worst_level 0 (worker_shutdown STATUSES)) u)) \<and>
      UploadArtifacts (task_defn t) \<in> set (trace (snd (invoke STATUSES sc \<sigma>))) \<and>
      CompleteTask (task_defn t) (worst_level (worst_level 0 (worker_shutdown STATUSES)) u)
        \<in> set (trace (snd (invoke STATUSES sc \<sigma>))))"
proof -
  obtain r1 \<sigma>1 where 1: "run_cancellable Claim_work (claim sc) \<sigma> = (r1, \<sigma>1)"
    by (cases "run_cancellable Claim_work (claim sc) \<sigma>")
  have r1: "r1 = (if is_cancelled (self \<sigma>) then Inl CancelledError
                  else (case result (claim sc) of Raises e \<Rightarrow> Inl e | Returns v \<Rightarrow> Inr v))"
    using 1 run_cancellable_fst [of Claim_work "claim sc" \<sigma>] by simp
  have \<sigma>1: "\<sigma>1 = snd (run_cancellable Claim_work (claim sc) \<sigma>)"
    using 1 by simp
  obtain r2 \<sigma>2 where
    2: "run_cancellable (Sleep (poll_interval (config \<sigma>1))) (idle sc) \<sigma>1 = (r2, \<sigma>2)"
    by (cases "run_cancellable (Sleep (poll_interval (config \<sigma>1))) (idle sc) \<sigma>1")
  have r2: "r2 = (if is_cancelled (self \<sigma>1) then Inl CancelledError
                  else (case result (idle sc) of Raises e \<Rightarrow> Inl e | Returns v \<Rightarrow> Inr v))"
    using 2 run_cancellable_fst [of "Sleep (poll_interval (config \<sigma>1))" "idle sc" \<sigma>1]
    by simp
  obtain r3 \<sigma>3 where 3: "run_loop STATUSES None (projr r1) \<sigma>1 = (r3, \<sigma>3)"
    by (cases "run_loop STATUSES None (projr r1) \<sigma>1")
  have never: "fst (invoke STATUSES sc \<sigma>) \<noteq> Inl CancelledError"
    using 1 2 3
    by (cases r1; cases r2; cases r3)
       (simp_all add: invoke_def invoke_handler_def)
  have before: "invoke STATUSES sc \<sigma> = (Inr None, \<sigma>)" if "is_cancelled (self \<sigma>)"
    using that by (simp add: invoke_def invoke_handler_def run_cancellable_def)
  have during_claim: "fst (invoke STATUSES sc \<sigma>) = Inr None"
    if "\<not> is_cancelled (self \<sigma>)" and "result (claim sc) = Raises CancelledError"
    using that 1 r1 by (simp add: invoke_def invoke_handler_def)
  have during_sleep: "fst (invoke STATUSES sc \<sigma>) = Inr None"
    if "\<not> is_cancelled (self \<sigma>)" and "result (claim sc) = Returns []"
      and "0 < cancels (claim sc) \<or> result (idle sc) = Raises CancelledError"
  proof -
    have "r1 = Inr []"
      using r1 that(1,2) by simp
    moreover have "is_cancelled (self \<sigma>1) = (0 < cancels (claim sc))"
      using run_cancellable_after [OF that(1), of Claim_work "claim sc"] \<sigma>1 by simp
    then have "r2 = Inl CancelledError"
      using r2 that(3) by auto
    ultimately show ?thesis
      using 1 2 by (simp add: invoke_def invoke_handler_def)
  qed
  have during_verify: "fst (invoke STATUSES sc \<sigma>) =
        Inr (Some (worst_level (worst_level 0 (worker_shutdown STATUSES)) u)) \<and>
      UploadArtifacts (task_defn t) \<in> set (trace (snd (invoke STATUSES sc \<sigma>))) \<and>
      CompleteTask (task_defn t) (worst_level (worst_level 0 (worker_shutdown STATUSES)) u)
        \<in> set (trace (snd (invoke STATUSES sc \<sigma>)))"
    if "\<not> is_cancelled (self \<sigma>)" and "result (claim sc) = Returns [t]"
      and "verify_chain_of_trust (config \<sigma>)"
      and "0 < cancels (claim sc) \<or> result (verify t) = Raises CancelledError"
      and "fst (do_upload STATUSES t \<sigma>) = Inr u" and "result (complete t) = Returns ()"
  proof -
    let ?st = "worst_level (worst_level 0 (worker_shutdown STATUSES)) u"
    have after: "is_cancelled (self \<sigma>1) = (0 < cancels (claim sc))" "config \<sigma>1 = config \<sigma>"
      using run_cancellable_after [OF that(1), of Claim_work "claim sc"] \<sigma>1 by simp_all
    have "fst (do_run_task STATUSES t \<sigma>1) = Inr (worst_level 0 (worker_shutdown STATUSES))"
      using after that(3,4)
      by (simp add: do_run_task_fst cancellable_verify_fst run_handler_fst)
    moreover have "fst (do_upload STATUSES t \<sigma>1) = Inr u"
      using that(5) do_upload_fst_any [of STATUSES t \<sigma>1 \<sigma>] by simp
    ultimately have f: "fst (run_one STATUSES t \<sigma>1) = Inr ?st"
      using that(6) by (simp add: run_one_fst)
    obtain \<sigma>2 where ro: "run_one STATUSES t \<sigma>1 = (Inr ?st, \<sigma>2)"
      using f by (cases "run_one STATUSES t \<sigma>1") simp
    have ev: "UploadArtifacts (task_defn t) \<in> set (trace \<sigma>2) \<and>
              CompleteTask (task_defn t) ?st \<in> set (trace \<sigma>2)"
      using run_one_events [OF f] ro by simp
    have "invoke STATUSES sc \<sigma> = (Inr (Some ?st), \<sigma>2)"
      using invoke_one [OF that(1,2), of STATUSES ?st \<sigma>2] ro \<sigma>1 by simp
    with ev show ?thesis
      by simp
  qed
  from never before during_claim during_sleep during_verify show ?thesis
    by blast
qed

theorem cancellation_handled_by_invoke_witness:
  "is_cancelled (self world_cancelled) \<and>
   invoke STATUSES_ex (claims [task_ok]) world_cancelled = (Inr None, world_cancelled) \<and>
   \<not> is_cancelled (self world_ex) \<and>
   fst (invoke STATUSES_ex
          \<lparr>claim = \<lparr>cancels = 1, result = Raises CancelledError\<rparr>, idle = quiet ()\<rparr> world_ex)
     = Inr None \<and>
   fst (invoke STATUSES_ex
          \<lparr>claim = quiet [], idle = \<lparr>cancels = 1, result = Raises CancelledError\<rparr>\<rparr> world_ex)
     = Inr None \<and>
   verify_chain_of_trust (config world_ex) \<and>
   result (verify task_shutdown) = Raises CancelledError \<and>
   fst (invoke STATUSES_ex (claims [task_shutdown]) world_ex) = Inr (Some 2) \<and>
   UploadArtifacts 1 \<in> set (trace (snd (invoke STATUSES_ex (claims [task_shutdown]) world_ex))) \<and>
   CompleteTask 1 2 \<in> set (trace (snd (invoke STATUSES_ex (claims [task_shutdown]) world_ex)))"
proof -
  let ?sc1 = "\<lparr>claim = \<lparr>cancels = 1, result = Raises CancelledError\<rparr>, idle = quiet ()\<rparr>"
  let ?sc2 = "\<lparr>claim = quiet [], idle = \<lparr>cancels = 1, result = Raises CancelledError\<rparr>\<rparr>"
  have c: "is_cancelled (self world_cancelled)"
    and n: "\<not> is_cancelled (self world_ex)"
    and v: "verify_chain_of_trust (config world_ex)"
    by code_simp+
  have a1: "result (claim ?sc1) = Raises CancelledError"
    and a2: "result (claim ?sc2) = Returns []"
    and a3: "result (idle ?sc2) = Raises CancelledError"
    and a4: "result (claim (claims [task_shutdown])) = Returns [task_shutdown]"
    and a5: "result (verify task_shutdown) = Raises CancelledError"
    and a6: "fst (do_upload STATUSES_ex task_shutdown world_ex) = Inr 0"
    and a7: "result (complete task_shutdown) = Returns ()"
    and a8: "worker_shutdown STATUSES_ex = 2"
    and a9: "task_defn task_shutdown = 1"
    by code_simp+
  from cancellation_handled_by_invoke
         [where \<sigma> = world_cancelled and sc = "claims [task_ok]" and STATUSES = STATUSES_ex] c
  have w1: "invoke STATUSES_ex (claims [task_ok]) world_cancelled = (Inr None, world_cancelled)"
    by blast
  from cancellation_handled_by_invoke
         [where \<sigma> = world_ex and sc = ?sc1 and STATUSES = STATUSES_ex] n a1
  have w2: "fst (invoke STATUSES_ex ?sc1 world_ex) = Inr None"
    by blast
  from cancellation_handled_by_invoke
         [where \<sigma> = world_ex and sc = ?sc2 and STATUSES = STATUSES_ex] n a2 a3
  have w3: "fst (invoke STATUSES_ex ?sc2 world_ex) = Inr None"
    by blast
  from cancellation_handled_by_invoke
         [where \<sigma> = world_ex and sc = "claims [task_shutdown]" and STATUSES = STATUSES_ex
            and t = task_shutdown and u = 0] n v a4 a5 a6 a7
  have "fst (invoke STATUSES_ex (claims [task_shutdown]) world_ex) =
      Inr (Some (worst_level (worst_level 0 (worker_shutdown STATUSES_ex)) 0)) \<and>
    UploadArtifacts (task_defn task_shutdown)
      \<in> set (trace (snd (invoke STATUSES_ex (claims [task_shutdown]) world_ex))) \<and>
    CompleteTask (task_defn task_shutdown)
        (worst_level (worst_level 0 (worker_shutdown STATUSES_ex)) 0)
      \<in> set (trace (snd (invoke STATUSES_ex (claims [task_shutdown]) world_ex)))"
    by blast
  then have w4: "fst (invoke STATUSES_ex (claims [task_shutdown]) world_ex) = Inr (Some 2) \<and>
    UploadArtifacts 1
      \<in> set (trace (snd (invoke STATUSES_ex (claims [task_shutdown]) world_ex))) \<and>
    CompleteTask 1 2
      \<in> set (trace (snd (invoke STATUSES_ex (claims [task_shutdown]) world_ex)))"
    by (simp add: a8 a9 worst_level_def)
  from c n v a5 w1 w2 w3 w4 show ?thesis
    by simp
qed

text \<open>
  C6, as the claim has it: one task is claimed, \<open>cancel()\<close> arrives while its verification
  is awaited and the verification future is cancelled.  The artifacts are uploaded, the
  task is reported complete with the status 2 (worker-shutdown), and \<open>invoke\<close> returns this
  status, not \<open>None\<close>.
\<close>

theorem cancel_during_verification_counterexample:
  "cancels (verify task_shutdown) = 1 \<and>
   result (verify task_shutdown) = Raises CancelledError \<and>
   fst (invoke STATUSES_ex (claims [task_shutdown]) world_ex) = Inr (Some 2) \<and>
   trace (snd (invoke STATUSES_ex (claims [task_shutdown]) world_ex)) =
     [EnsureFuture Claim_work, PrepareToRunTask 1, ReclaimStart 1,
      EnsureFuture Verify_chain_of_trust, FutureCancel Verify_chain_of_trust,
      UploadArtifacts 1, CompleteTask 1 2, ReclaimCancel 1, Cleanup]"
  by code_simp

section \<open>\<open>run_tasks\<close> and the reference in the context\<close>




end
